theory Spec2Isabelle
  imports Main
begin

section \<open>JavaScript values\<close>

text \<open>
  The values that flow through \<^verbatim>\<open>WorkflowDeleteModal.js\<close>: identifiers, names, run
  numbers and totals come from a JSON response or from the store, so they are modelled
  as primitive JavaScript values. Numbers are the integers (the only numbers the
  service sends for counts and identifiers), written in decimal as JavaScript writes
  every integer below \<open>10^21\<close>; strict equality \<^verbatim>\<open>===\<close> on these primitives is
  equality of the datatype.
\<close>

datatype jsval = JUndefined | JNull | JBool bool | JNum int | JStr string

text \<open>\<^verbatim>\<open>Boolean(v)\<close>, and the test of \<^verbatim>\<open>if (v)\<close>, \<^verbatim>\<open>!v\<close>, \<^verbatim>\<open>v ? a : b\<close>, \<^verbatim>\<open>v || w\<close>.\<close>

fun truthy :: "jsval \<Rightarrow> bool" where
  "truthy JUndefined = False"
| "truthy JNull = False"
| "truthy (JBool b) = b"
| "truthy (JNum n) = (n \<noteq> 0)"
| "truthy (JStr s) = (s \<noteq> [])"

text \<open>Decimal digits of a natural number, most significant first.\<close>

function digits_of :: "nat \<Rightarrow> string" where
  "digits_of n =
     (if n < 10 then [''0123456789'' ! n]
      else digits_of (n div 10) @ [''0123456789'' ! (n mod 10)])"
  by pat_completeness auto
termination
  by (relation "measure (\<lambda>n. n)") auto

declare digits_of.simps [simp del]

text \<open>\<^verbatim>\<open>String(v)\<close>, which is also what a template literal \<^verbatim>\<open>`${v}`\<close> inserts.\<close>

fun String_js :: "jsval \<Rightarrow> string" where
  "String_js JUndefined = ''undefined''"
| "String_js JNull = ''null''"
| "String_js (JBool b) = (if b then ''true'' else ''false'')"
| "String_js (JNum n) =
     (if n < 0 then CHR ''-'' # digits_of (nat (- n)) else digits_of (nat n))"
| "String_js (JStr s) = s"

text \<open>\<^verbatim>\<open>s.split(c)\<close> for a one-character separator: never empty, \<^verbatim>\<open>"".split(".")\<close> is \<^verbatim>\<open>[""]\<close>.\<close>

fun split_js :: "char \<Rightarrow> string \<Rightarrow> string list" where
  "split_js c [] = [[]]"
| "split_js c (x # xs) =
     (if x = c then [] # split_js c xs
      else (case split_js c xs of
              [] \<Rightarrow> [[x]]
            | p # ps \<Rightarrow> (x # p) # ps))"

text \<open>\<^verbatim>\<open>parts.join(c)\<close> for a list of strings.\<close>

fun join_js :: "char \<Rightarrow> string list \<Rightarrow> string" where
  "join_js c [] = []"
| "join_js c [p] = p"
| "join_js c (p # q # ps) = p @ c # join_js c (q # ps)"

section \<open>The workspace group of a full workflow name\<close>

text \<open>\<^verbatim>\<open>/^\d+$/.test(p)\<close>: one or more characters, each an ASCII digit.\<close>

definition digit_char :: "char \<Rightarrow> bool" where
  "digit_char c = (c \<in> set ''0123456789'')"

definition numeric_part :: "string \<Rightarrow> bool" where
  "numeric_part p = (p \<noteq> [] \<and> list_all digit_char p)"

text \<open>
  The loop \<^verbatim>\<open>while (i >= 0 && /^\d+$/.test(parts[i])) i--;\<close> started at
  \<^verbatim>\<open>parts.length - 1\<close>; the index is an integer and may end at \<open>-1\<close>.
\<close>

function scan_back :: "string list \<Rightarrow> int \<Rightarrow> int" where
  "scan_back parts i =
     (if i \<ge> 0 \<and> numeric_part (parts ! nat i) then scan_back parts (i - 1) else i)"
  by pat_completeness auto
termination
  by (relation "measure (\<lambda>(parts, i). nat (i + 1))") auto

declare scan_back.simps [simp del]

text \<open>\<^verbatim>\<open>getWorkspaceGroup\<close>, lines 105 to 114. It returns \<^verbatim>\<open>null\<close> or a string.\<close>

definition getWorkspaceGroup :: "jsval \<Rightarrow> jsval" where
  "getWorkspaceGroup fullName =
     (if \<not> truthy fullName then JNull
      else
        let parts = split_js CHR ''.'' (String_js fullName);
            i = scan_back parts (int (length parts) - 1);
            numeric = drop (nat (i + 1)) parts;
            base = join_js CHR ''.'' (take (nat (i + 1)) parts)
        in if base = [] \<or> length numeric = 0 then JNull
           else JStr (base @ ''.'' @ hd numeric))"

text \<open>
  The resolver in the words of the specification: split on \<open>.\<close>, strip every trailing
  purely numeric component, join what remains into the base, and answer with the base,
  a dot and the leftmost stripped component; no key for the empty name, for a name with
  no trailing numeric component and for an empty base.
\<close>

definition resolve_spec :: "string \<Rightarrow> string option" where
  "resolve_spec s =
     (let parts = split_js CHR ''.'' s;
          numeric = rev (takeWhile numeric_part (rev parts));
          base = join_js CHR ''.'' (rev (dropWhile numeric_part (rev parts)))
      in if s = [] \<or> numeric = [] \<or> base = [] then None
         else Some (base @ ''.'' @ hd numeric))"

section \<open>The related-runs tracker: \<^verbatim>\<open>useWorkflowRuns\<close>\<close>

record runs_state =
  total :: jsval
  relatedIds :: "jsval list"
  loading :: bool

text \<open>The object literal of lines 51, 59 and 90.\<close>

definition reset_state :: runs_state where
  "reset_state = \<lparr>total = JNull, relatedIds = [], loading = False\<rparr>"

text \<open>
  An element of \<^verbatim>\<open>resp.data.items\<close>: \<open>None\<close> is a \<^verbatim>\<open>null\<close> or \<^verbatim>\<open>undefined\<close> element, a
  property that is absent reads as \<open>JUndefined\<close>. In a response \<^verbatim>\<open>items\<close> itself may
  be absent.
\<close>

record item =
  item_id :: jsval
  item_name :: jsval

record response =
  resp_items :: "item option list option"
  resp_total :: jsval

datatype js_error = TypeError | Reason jsval

datatype outcome = Fulfilled response | Rejected js_error

text \<open>
  One run of the effect body that reached line 63: its closure variable
  \<^verbatim>\<open>cancelled\<close>, the group of the selected run, the name it queried, and whether the
  promise of its query has settled.
\<close>

record fetch =
  cancelled :: bool
  selectedGroup :: jsval
  query_name :: jsval
  settled :: bool

text \<open>
  The hook instance: the React state, the queries issued so far, the cleanup function
  returned by the last run of the effect (the index of the closure whose flag it sets),
  and what was written to the console.
\<close>

record tracker =
  state :: runs_state
  fetches :: "fetch list"
  cleanup :: "nat option"
  console :: "(string \<times> js_error) list"

definition init_tracker :: tracker where
  "init_tracker = \<lparr>state = reset_state, fetches = [], cleanup = None, console = []\<rparr>"

text \<open>Line 64.\<close>

definition selectedFullName :: "jsval \<Rightarrow> jsval \<Rightarrow> jsval" where
  "selectedFullName name run =
     (if truthy run then JStr (String_js name @ ''.'' @ String_js run) else name)"

text \<open>The effect body, lines 58 to 95.\<close>

definition run_effect :: "bool \<Rightarrow> jsval \<Rightarrow> jsval \<Rightarrow> tracker \<Rightarrow> tracker" where
  "run_effect open name run t =
     (if \<not> open \<or> \<not> truthy name then t\<lparr>state := reset_state, cleanup := None\<rparr>
      else t\<lparr>state := (state t)\<lparr>loading := True\<rparr>,
             fetches := fetches t @
               [\<lparr>cancelled = False,
                 selectedGroup = getWorkspaceGroup (selectedFullName name run),
                 query_name = name,
                 settled = False\<rparr>],
             cleanup := Some (length (fetches t))\<rparr>)"

text \<open>The cleanup function of lines 93 to 95, when the last run returned one.\<close>

definition run_cleanup :: "tracker \<Rightarrow> tracker" where
  "run_cleanup t =
     (case cleanup t of
        None \<Rightarrow> t
      | Some k \<Rightarrow>
          (if k < length (fetches t)
           then t\<lparr>fetches := (fetches t)[k := (fetches t ! k)\<lparr>cancelled := True\<rparr>],
                  cleanup := None\<rparr>
           else t\<lparr>cleanup := None\<rparr>))"

text \<open>
  A change of \<^verbatim>\<open>[open, name, run]\<close>: React runs the cleanup of the previous run of the
  effect, then the effect body with the new values.
\<close>

definition activate :: "bool \<Rightarrow> jsval \<Rightarrow> jsval \<Rightarrow> tracker \<Rightarrow> tracker" where
  "activate open name run t = run_effect open name run (run_cleanup t)"

text \<open>\<^verbatim>\<open>.map((w) => w.id)\<close>: reading \<^verbatim>\<open>id\<close> of \<^verbatim>\<open>null\<close> throws.\<close>

fun map_id :: "item option list \<Rightarrow> js_error + jsval list" where
  "map_id [] = Inr []"
| "map_id (None # ws) = Inl TypeError"
| "map_id (Some w # ws) =
     (case map_id ws of Inl e \<Rightarrow> Inl e | Inr ids \<Rightarrow> Inr (item_id w # ids))"

text \<open>\<^verbatim>\<open>w?.name\<close>.\<close>

definition opt_name :: "item option \<Rightarrow> jsval" where
  "opt_name w = (case w of None \<Rightarrow> JUndefined | Some x \<Rightarrow> item_name x)"

text \<open>Lines 79 to 84.\<close>

definition related_of :: "jsval \<Rightarrow> item option list \<Rightarrow> js_error + jsval list" where
  "related_of sel its =
     (if truthy sel
      then (case map_id (filter (\<lambda>w. getWorkspaceGroup (opt_name w) = sel) its) of
              Inl e \<Rightarrow> Inl e
            | Inr ids \<Rightarrow> Inr (filter truthy ids))
      else Inr [])"

text \<open>Line 78, \<^verbatim>\<open>resp.data.items || []\<close>; an array is truthy.\<close>

definition items_or_empty :: "response \<Rightarrow> item option list" where
  "items_or_empty resp = (case resp_items resp of None \<Rightarrow> [] | Some l \<Rightarrow> l)"

text \<open>The \<^verbatim>\<open>.then\<close> callback, lines 76 to 86.\<close>

definition on_fulfilled :: "fetch \<Rightarrow> response \<Rightarrow> tracker \<Rightarrow> js_error + tracker" where
  "on_fulfilled f resp t =
     (if cancelled f then Inr t
      else
        let its = items_or_empty resp
        in case related_of (selectedGroup f) its of
             Inl e \<Rightarrow> Inl e
           | Inr ids \<Rightarrow>
               Inr (t\<lparr>state := \<lparr>total = resp_total resp, relatedIds = ids, loading = False\<rparr>\<rparr>))"

text \<open>The \<^verbatim>\<open>.catch\<close> callback, lines 87 to 91.\<close>

definition on_rejected :: "fetch \<Rightarrow> js_error \<Rightarrow> tracker \<Rightarrow> tracker" where
  "on_rejected f err t =
     (if cancelled f then t
      else t\<lparr>console := console t @
               [(''Error while fetching runs for workflow '' @ String_js (query_name f), err)],
             state := reset_state\<rparr>)"

text \<open>
  The promise of query \<open>k\<close> settles, once: \<^verbatim>\<open>.then(f).catch(g)\<close> runs \<open>g\<close> when the query
  is rejected and when \<open>f\<close> throws. The callbacks read \<^verbatim>\<open>cancelled\<close> as it is now.
\<close>

definition settle :: "nat \<Rightarrow> outcome \<Rightarrow> tracker \<Rightarrow> tracker" where
  "settle k oc t =
     (if k \<ge> length (fetches t) \<or> settled (fetches t ! k) then t
      else
        let f = fetches t ! k;
            t1 = t\<lparr>fetches := (fetches t)[k := f\<lparr>settled := True\<rparr>]\<rparr>
        in case oc of
             Fulfilled resp \<Rightarrow>
               (case on_fulfilled f resp t1 of Inr t2 \<Rightarrow> t2 | Inl e \<Rightarrow> on_rejected f e t1)
           | Rejected err \<Rightarrow> on_rejected f err t1)"

datatype event = Activate bool jsval jsval | Settle nat outcome

fun step :: "tracker \<Rightarrow> event \<Rightarrow> tracker" where
  "step t (Activate open name run) = activate open name run t"
| "step t (Settle k oc) = settle k oc t"

definition run_events :: "tracker \<Rightarrow> event list \<Rightarrow> tracker" where
  "run_events t evs = foldl step t evs"

section \<open>The deletion modal: \<^verbatim>\<open>WorkflowDeleteModal\<close>\<close>

text \<open>
  What one render of the component sees: \<^verbatim>\<open>id\<close>, \<^verbatim>\<open>name\<close> and \<^verbatim>\<open>run\<close> of the selected
  workflow (\<open>JUndefined\<close> when there is none, line 124), the two local flags, and the
  total and related identifiers handed over by the tracker.
\<close>

record modal =
  wf_id :: jsval
  wf_name :: jsval
  wf_run :: jsval
  allRuns :: bool
  confirmRelatedDeletion :: bool
  allRunsTotal :: jsval
  relatedRunIds :: "jsval list"

text \<open>Lines 124 to 129: the modal reads the tracker's state.\<close>

definition modal_of ::
  "tracker \<Rightarrow> jsval \<Rightarrow> jsval \<Rightarrow> jsval \<Rightarrow> bool \<Rightarrow> bool \<Rightarrow> modal" where
  "modal_of t i name run a c =
     \<lparr>wf_id = i, wf_name = name, wf_run = run, allRuns = a, confirmRelatedDeletion = c,
      allRunsTotal = total (state t), relatedRunIds = relatedIds (state t)\<rparr>"

text \<open>Line 137.\<close>

definition hasRelatedRuns :: "modal \<Rightarrow> bool" where
  "hasRelatedRuns m = (length (relatedRunIds m) > 1)"

text \<open>Line 264, the \<^verbatim>\<open>disabled\<close> property of the delete button.\<close>

definition delete_disabled :: "modal \<Rightarrow> bool" where
  "delete_disabled m = (hasRelatedRuns m \<and> \<not> allRuns m \<and> \<not> confirmRelatedDeletion m)"

subsection \<open>The label of the delete button\<close>

definition nullish :: "jsval \<Rightarrow> bool" where
  "nullish v = (v = JUndefined \<or> v = JNull)"

text \<open>\<^verbatim>\<open>a ?? b\<close> and \<^verbatim>\<open>a || b\<close>.\<close>

definition coalesce :: "jsval \<Rightarrow> jsval \<Rightarrow> jsval" where
  "coalesce a b = (if nullish a then b else a)"

definition or_js :: "jsval \<Rightarrow> jsval \<Rightarrow> jsval" where
  "or_js a b = (if truthy a then a else b)"

text \<open>Line 144.\<close>

definition relatedCount :: "modal \<Rightarrow> jsval" where
  "relatedCount m = JNum (int (length (relatedRunIds m)))"

text \<open>Line 145; \<^verbatim>\<open>split\<close> never returns an empty array, so element \<open>0\<close> exists.\<close>

definition baseRun :: "modal \<Rightarrow> string" where
  "baseRun m = hd (split_js CHR ''.'' (String_js (coalesce (wf_run m) (JStr []))))"

text \<open>Line 146.\<close>

definition runLabel :: "modal \<Rightarrow> jsval" where
  "runLabel m =
     (if baseRun m \<noteq> [] then JStr (String_js (wf_name m) @ ''#'' @ baseRun m)
      else wf_name m)"

text \<open>Lines 147 to 157. The double quote is character \<open>0x22\<close>.\<close>

definition quoted :: "string \<Rightarrow> string" where
  "quoted s = CHR 0x22 # s @ [CHR 0x22]"

definition deleteButtonLabel :: "modal \<Rightarrow> string" where
  "deleteButtonLabel m =
     (if \<not> truthy (wf_name m) then ''Delete''
      else if allRuns m then
        ''Delete '' @ String_js (coalesce (allRunsTotal m) (JStr ''all'')) @ '' runs of '' @
        quoted (String_js (wf_name m))
      else if hasRelatedRuns m \<and> confirmRelatedDeletion m then
        ''Delete '' @ String_js (or_js (relatedCount m) (JStr ''all'')) @
        '' runs in restart chain of '' @ quoted (String_js (runLabel m))
      else if wf_run m \<noteq> JUndefined \<and> wf_run m \<noteq> JNull \<and> String_js (wf_run m) \<noteq> [] then
        ''Delete workflow '' @ quoted (String_js (wf_name m) @ ''#'' @ String_js (wf_run m))
      else ''Delete workflow '' @ quoted (String_js (wf_name m)))"

subsection \<open>The delete action\<close>

text \<open>
  The options object of a \<^verbatim>\<open>deleteWorkflow\<close> action; \<^verbatim>\<open>{ allRuns: true }\<close> has no
  \<^verbatim>\<open>deleteWorkspace\<close> key.
\<close>

record delete_opts =
  opt_allRuns :: bool
  opt_deleteWorkspace :: "bool option"

text \<open>
  What \<^verbatim>\<open>onDelete\<close> does to the outside: it dispatches \<^verbatim>\<open>deleteWorkflow(id, opts)\<close> and
  it dispatches \<^verbatim>\<open>closeDeleteWorkflowModal()\<close>.
\<close>

datatype effect = Dispatch jsval delete_opts | CloseModal

text \<open>
  An asynchronous computation is the list of effects it performed, in order, and whether
  its promise was fulfilled. \<^verbatim>\<open>dispatch\<close> and \<^verbatim>\<open>deleteWorkflow\<close> are imported from
  \<^verbatim>\<open>~/actions\<close>: whether the promise of a dispatched command is fulfilled is the
  parameter \<open>ok\<close>.
\<close>

type_synonym async = "effect list \<times> bool"

definition return_js :: async where
  "return_js = ([], True)"

definition await_dispatch :: "(jsval \<Rightarrow> delete_opts \<Rightarrow> bool) \<Rightarrow> jsval \<Rightarrow> delete_opts \<Rightarrow> async" where
  "await_dispatch ok i opts = ([Dispatch i opts], ok i opts)"

text \<open>
  \<^verbatim>\<open>await Promise.all(ids.map((otherId) => dispatch(...)))\<close>: every command is dispatched
  by \<^verbatim>\<open>map\<close>, then the promise of all is awaited.
\<close>

definition await_all :: "(jsval \<Rightarrow> delete_opts \<Rightarrow> bool) \<Rightarrow> jsval list \<Rightarrow> delete_opts \<Rightarrow> async" where
  "await_all ok ids opts = (map (\<lambda>i. Dispatch i opts) ids, list_all (\<lambda>i. ok i opts) ids)"

text \<open>Lines 140 to 142.\<close>

definition onCloseModal :: async where
  "onCloseModal = ([CloseModal], True)"

text \<open>Sequencing after an \<^verbatim>\<open>await\<close>: a rejected promise ends the function there.\<close>

definition then_do :: "async \<Rightarrow> async \<Rightarrow> async" where
  "then_do p q = (if snd p then (fst p @ fst q, snd q) else p)"

text \<open>\<^verbatim>\<open>onDelete\<close>, lines 175 to 211.\<close>

definition onDelete :: "(jsval \<Rightarrow> delete_opts \<Rightarrow> bool) \<Rightarrow> modal \<Rightarrow> async" where
  "onDelete ok m =
     (if \<not> truthy (wf_id m) then return_js
      else if allRuns m then
        then_do
          (await_dispatch ok (wf_id m) \<lparr>opt_allRuns = True, opt_deleteWorkspace = None\<rparr>)
          onCloseModal
      else if hasRelatedRuns m then
        (if \<not> confirmRelatedDeletion m then return_js
         else
           then_do
             (await_dispatch ok (wf_id m)
                \<lparr>opt_allRuns = False, opt_deleteWorkspace = Some True\<rparr>)
             (then_do
                (await_all ok (filter (\<lambda>otherId. otherId \<noteq> wf_id m) (relatedRunIds m))
                   \<lparr>opt_allRuns = False, opt_deleteWorkspace = Some False\<rparr>)
                onCloseModal))
      else
        then_do
          (await_dispatch ok (wf_id m) \<lparr>opt_allRuns = False, opt_deleteWorkspace = Some True\<rparr>)
          onCloseModal)"

text \<open>A click on the delete button, lines 262 to 268: a disabled button ignores it.\<close>

definition click_delete :: "(jsval \<Rightarrow> delete_opts \<Rightarrow> bool) \<Rightarrow> modal \<Rightarrow> async" where
  "click_delete ok m = (if delete_disabled m then return_js else onDelete ok m)"

section \<open>Notions used to state the properties\<close>

text \<open>
  The related identifiers in the words of the specification: the identifiers of every
  returned item whose qualified name resolves to the selected key, in the order of the
  response, and none when there is no selected key.
\<close>

definition related_spec :: "jsval \<Rightarrow> item option list \<Rightarrow> jsval list" where
  "related_spec key its =
     (if key = JNull then []
      else [item_id w. Some w \<leftarrow> its, getWorkspaceGroup (item_name w) = key])"

text \<open>An event that settles a query other than query \<open>k\<close>.\<close>

fun settles_other :: "nat \<Rightarrow> event \<Rightarrow> bool" where
  "settles_other k (Settle j oc) = (j \<noteq> k)"
| "settles_other k (Activate open name run) = False"

text \<open>
  The invariant of the hook: the cleanup function refers to an issued query, every
  other issued query has been cancelled, and every related identifier is truthy.
\<close>

definition tracker_inv :: "tracker \<Rightarrow> bool" where
  "tracker_inv t =
     ((\<forall>k. cleanup t = Some k \<longrightarrow> k < length (fetches t)) \<and>
      (\<forall>k < length (fetches t). cleanup t \<noteq> Some k \<longrightarrow> cancelled (fetches t ! k)) \<and>
      (\<forall>x \<in> set (relatedIds (state t)). truthy x))"

text \<open>Every dispatched command is fulfilled.\<close>

definition all_fulfil :: "jsval \<Rightarrow> delete_opts \<Rightarrow> bool" where
  "all_fulfil i opts = True"

section \<open>Properties of the resolver\<close>

lemma scan_back_rev:
  "n \<le> length ps \<Longrightarrow>
   scan_back ps (int n - 1) = int (length (dropWhile numeric_part (rev (take n ps)))) - 1"
proof (induction n)
  case 0
  show ?case by (simp add: scan_back.simps)
next
  case (Suc n)
  then have n: "n < length ps" by simp
  have t: "take (Suc n) ps = take n ps @ [ps ! n]"
    using n by (simp add: take_Suc_conv_app_nth)
  show ?case
  proof (cases "numeric_part (ps ! n)")
    case True
    have "scan_back ps (int (Suc n) - 1) = scan_back ps (int n - 1)"
      using True by (subst scan_back.simps) simp
    with Suc True t show ?thesis by simp
  next
    case False
    have "scan_back ps (int (Suc n) - 1) = int n"
      using False by (subst scan_back.simps) simp
    with False t n show ?thesis by simp
  qed
qed

lemma scan_back_full:
  "scan_back ps (int (length ps) - 1) = int (length (dropWhile numeric_part (rev ps))) - 1"
  using scan_back_rev [of "length ps" ps] by simp

lemma take_drop_rev:
  "take (length (dropWhile P (rev ps))) ps = rev (dropWhile P (rev ps))"
  "drop (length (dropWhile P (rev ps))) ps = rev (takeWhile P (rev ps))"
proof -
  have e: "ps = rev (dropWhile P (rev ps)) @ rev (takeWhile P (rev ps))"
    by (metis rev_append rev_rev_ident takeWhile_dropWhile_id)
  show "take (length (dropWhile P (rev ps))) ps = rev (dropWhile P (rev ps))"
    by (subst (2) e) simp
  show "drop (length (dropWhile P (rev ps))) ps = rev (takeWhile P (rev ps))"
    by (subst (2) e) simp
qed

lemma takeWhile_Nil_length:
  "(takeWhile P xs = []) = (length xs \<le> length (dropWhile P xs))"
proof -
  have "length xs = length (takeWhile P xs) + length (dropWhile P xs)"
    by (metis length_append takeWhile_dropWhile_id)
  then show ?thesis by auto
qed

lemma getWorkspaceGroup_str:
  "getWorkspaceGroup (JStr s) = (case resolve_spec s of None \<Rightarrow> JNull | Some k \<Rightarrow> JStr k)"
  by (simp add: getWorkspaceGroup_def resolve_spec_def Let_def scan_back_full take_drop_rev
      takeWhile_Nil_length)


lemma split_js_nonempty: "split_js c s \<noteq> []"
  by (induction s) (auto split: list.splits)

lemma split_js_no_sep: "c \<notin> set s \<Longrightarrow> split_js c s = [s]"
  by (induction s) auto

lemma split_js_parts_free: "p \<in> set (split_js c s) \<Longrightarrow> c \<notin> set p"
  by (induction s arbitrary: p) (auto split: if_splits list.splits)

lemma split_js_append:
  "c \<notin> set p \<Longrightarrow> split_js c (p @ c # s) = p # split_js c s"
  by (induction p) (auto split: list.splits)

lemma split_join:
  "ps \<noteq> [] \<Longrightarrow> (\<forall>p \<in> set ps. c \<notin> set p) \<Longrightarrow> split_js c (join_js c ps) = ps"
proof (induction c ps rule: join_js.induct)
  case (1 c)
  then show ?case by simp
next
  case (2 c p)
  then show ?case by (simp add: split_js_no_sep)
next
  case (3 c p q ps)
  then show ?case by (simp add: split_js_append)
qed

lemma join_js_snoc: "ps \<noteq> [] \<Longrightarrow> join_js c (ps @ [h]) = join_js c ps @ c # h"
  by (induction c ps rule: join_js.induct) auto

lemma digit_char_not_dot: "\<not> digit_char CHR ''.''"
  by (simp add: digit_char_def)

lemma numeric_part_free: "numeric_part p \<Longrightarrow> CHR ''.'' \<notin> set p"
  unfolding numeric_part_def list_all_iff using digit_char_not_dot by blast

lemma resolve_spec_unfold:
  "resolve_spec s = Some k \<Longrightarrow> parts = split_js CHR ''.'' s \<Longrightarrow>
   pre = rev (dropWhile numeric_part (rev parts)) \<Longrightarrow>
   num = rev (takeWhile numeric_part (rev parts)) \<Longrightarrow>
   s \<noteq> [] \<and> num \<noteq> [] \<and> join_js CHR ''.'' pre \<noteq> [] \<and>
   k = join_js CHR ''.'' pre @ ''.'' @ hd num"
  unfolding resolve_spec_def Let_def by (simp split: if_splits)

lemma resolve_spec_idem:
  assumes "resolve_spec s = Some k"
  shows "resolve_spec k = Some k"
proof -
  define parts where "parts = split_js CHR ''.'' s"
  define pre where "pre = rev (dropWhile numeric_part (rev parts))"
  define num where "num = rev (takeWhile numeric_part (rev parts))"
  define h where "h = hd num"
  note u = resolve_spec_unfold [OF assms parts_def pre_def num_def]
  from u have num: "num \<noteq> []" by blast
  from u have base: "join_js CHR ''.'' pre \<noteq> []" by blast
  from u have k: "k = join_js CHR ''.'' pre @ ''.'' @ h" unfolding h_def by blast
  from base have pre: "pre \<noteq> []" by auto
  have "h \<in> set num" using num by (simp add: h_def)
  then have "h \<in> set (takeWhile numeric_part (rev parts))" by (simp add: num_def)
  then have hnum: "numeric_part h" by (rule set_takeWhileD [THEN conjunct2])
  have "set pre \<subseteq> set parts"
    unfolding pre_def using set_dropWhileD [of _ numeric_part "rev parts"] by auto
  then have free: "\<forall>p \<in> set pre. CHR ''.'' \<notin> set p"
    using split_js_parts_free [of _ "CHR ''.''" s] by (auto simp: parts_def)
  have kj: "k = join_js CHR ''.'' (pre @ [h])"
    using pre by (simp add: k join_js_snoc)
  have sk: "split_js CHR ''.'' k = pre @ [h]"
    unfolding kj using free hnum by (intro split_join) (auto dest: numeric_part_free)
  have "rev pre = dropWhile numeric_part (rev parts)" by (simp add: pre_def)
  moreover have "rev pre \<noteq> []" using pre by simp
  ultimately have "\<not> numeric_part (hd (rev pre))"
    by (metis hd_dropWhile)
  then have tw: "takeWhile numeric_part (rev pre) = []"
    using \<open>rev pre \<noteq> []\<close> by (cases "rev pre") auto
  then have dw: "dropWhile numeric_part (rev pre) = rev pre"
    by (metis append_Nil takeWhile_dropWhile_id)
  have ne: "k \<noteq> []" using k by simp
  have "resolve_spec k = Some (join_js CHR ''.'' pre @ ''.'' @ h)"
    unfolding resolve_spec_def Let_def sk using hnum tw dw base ne by simp
  then show ?thesis by (simp only: k)
qed


lemma digit_at_not_dot: "m < 10 \<Longrightarrow> ''0123456789'' ! m \<noteq> CHR ''.''"
proof -
  assume "m < 10"
  then have "m \<in> {0,1,2,3,4,5,6,7,8,9}" by auto
  then show ?thesis by auto
qed

lemma digits_of_free: "CHR ''.'' \<notin> set (digits_of n)"
proof (induction n rule: digits_of.induct)
  case (1 n)
  show ?case
  proof (cases "n < 10")
    case True
    then show ?thesis
      using digit_at_not_dot [of n] by (subst digits_of.simps) auto
  next
    case False
    then show ?thesis
      using 1 digit_at_not_dot [of "n mod 10"] by (subst digits_of.simps) auto
  qed
qed

lemma digits_of_nonempty: "digits_of n \<noteq> []"
  by (subst digits_of.simps) simp

lemma String_js_free: "(\<forall>s. v \<noteq> JStr s) \<Longrightarrow> CHR ''.'' \<notin> set (String_js v)"
  by (cases v) (auto simp: digits_of_free)

lemma getWorkspaceGroup_no_dot:
  assumes "CHR ''.'' \<notin> set s"
  shows "getWorkspaceGroup (JStr s) = JNull"
proof -
  have "split_js CHR ''.'' s = [s]" using assms by (rule split_js_no_sep)
  then show ?thesis
    by (simp add: getWorkspaceGroup_str resolve_spec_def Let_def)
qed

lemma getWorkspaceGroup_String:
  "truthy v \<Longrightarrow> getWorkspaceGroup v = getWorkspaceGroup (JStr (String_js v))"
  by (cases v) (simp_all add: getWorkspaceGroup_def digits_of_nonempty)

lemma getWorkspaceGroup_nonstring:
  assumes "\<forall>s. v \<noteq> JStr s"
  shows "getWorkspaceGroup v = JNull"
proof (cases "truthy v")
  case True
  then have "getWorkspaceGroup v = getWorkspaceGroup (JStr (String_js v))"
    by (rule getWorkspaceGroup_String)
  also have "\<dots> = JNull"
    using assms by (intro getWorkspaceGroup_no_dot String_js_free)
  finally show ?thesis .
next
  case False
  then show ?thesis by (simp add: getWorkspaceGroup_def)
qed

lemma getWorkspaceGroup_fixed:
  "getWorkspaceGroup N \<noteq> JNull \<Longrightarrow> getWorkspaceGroup (getWorkspaceGroup N) = getWorkspaceGroup N"
proof -
  assume d: "getWorkspaceGroup N \<noteq> JNull"
  then obtain s where N: "N = JStr s" using getWorkspaceGroup_nonstring by blast
  with d obtain k where k: "resolve_spec s = Some k"
    by (cases "resolve_spec s") (auto simp: getWorkspaceGroup_str)
  then have "resolve_spec k = Some k" by (rule resolve_spec_idem)
  with k N show ?thesis by (simp add: getWorkspaceGroup_str)
qed

lemma resolve_examples:
  "resolve_spec ''helloworld-demo.1.1'' = Some ''helloworld-demo.1''"
  "resolve_spec ''helloworld-demo'' = None"
  "resolve_spec ''1.2'' = None"
  "resolve_spec ''helloworld-demo.1.2'' = Some ''helloworld-demo.1''"
  "resolve_spec [] = None"
  by code_simp+

text \<open>
  Claim C3. For every qualified name, \<^verbatim>\<open>getWorkspaceGroup\<close> computes what the
  specification's resolver describes: the name is split on dots, all trailing purely
  numeric components are stripped, and the result is the base, a dot and the leftmost
  stripped component; there is no key (\<^verbatim>\<open>null\<close>) for a null or empty name, when no
  trailing numeric component exists and when the base is empty. In particular
  \<^verbatim>\<open>helloworld-demo.1.1\<close> resolves to \<^verbatim>\<open>helloworld-demo.1\<close>, and \<^verbatim>\<open>helloworld-demo\<close> and
  \<^verbatim>\<open>1.2\<close> have no key.
\<close>

theorem getWorkspaceGroup_resolve:
  "getWorkspaceGroup (JStr N) = (case resolve_spec N of None \<Rightarrow> JNull | Some k \<Rightarrow> JStr k)
   \<and> getWorkspaceGroup JNull = JNull
   \<and> getWorkspaceGroup JUndefined = JNull
   \<and> getWorkspaceGroup (JStr []) = JNull
   \<and> getWorkspaceGroup (JStr ''helloworld-demo.1.1'') = JStr ''helloworld-demo.1''
   \<and> getWorkspaceGroup (JStr ''helloworld-demo'') = JNull
   \<and> getWorkspaceGroup (JStr ''1.2'') = JNull"
  by (simp add: getWorkspaceGroup_str resolve_examples) (simp add: getWorkspaceGroup_def)

theorem getWorkspaceGroup_resolve_witness:
  "getWorkspaceGroup (JStr ''helloworld-demo.1.2'') = JStr ''helloworld-demo.1''"
  using getWorkspaceGroup_resolve [of "''helloworld-demo.1.2''"]
  by (simp add: resolve_examples)

text \<open>
  Claim C9. The resolver is idempotent on its defined outputs: when
  \<^verbatim>\<open>getWorkspaceGroup\<close> of a name is a key, resolving that key again gives the same key.
\<close>

theorem getWorkspaceGroup_idempotent:
  "getWorkspaceGroup N \<noteq> JNull \<Longrightarrow>
   getWorkspaceGroup (getWorkspaceGroup N) = getWorkspaceGroup N"
  by (rule getWorkspaceGroup_fixed)

theorem getWorkspaceGroup_idempotent_witness:
  "getWorkspaceGroup (JStr ''helloworld-demo.1.2'') \<noteq> JNull \<and>
   getWorkspaceGroup (getWorkspaceGroup (JStr ''helloworld-demo.1.2'')) =
   getWorkspaceGroup (JStr ''helloworld-demo.1.2'')"
proof -
  have d: "getWorkspaceGroup (JStr ''helloworld-demo.1.2'') \<noteq> JNull"
    by (simp add: getWorkspaceGroup_str resolve_examples)
  show ?thesis
    using d getWorkspaceGroup_idempotent [OF d] by simp
qed

section \<open>Properties of the tracker\<close>

lemma map_id_total:
  "\<forall>w \<in> set ws. w \<noteq> None \<Longrightarrow> map_id ws = Inr [item_id w. Some w \<leftarrow> ws]"
  by (induction ws rule: map_id.induct) auto

lemma related_of_spec:
  "related_of sel its = Inr (if truthy sel then filter truthy (related_spec sel its) else [])"
proof (cases "truthy sel")
  case False
  then show ?thesis by (simp add: related_of_def)
next
  case True
  then have nn: "sel \<noteq> JNull" by auto
  let ?fs = "filter (\<lambda>w. getWorkspaceGroup (opt_name w) = sel) its"
  have null: "getWorkspaceGroup (opt_name None) = JNull"
    by (simp add: opt_name_def getWorkspaceGroup_def)
  have "\<forall>w \<in> set ?fs. w \<noteq> None"
  proof (intro ballI notI)
    fix w assume "w \<in> set ?fs" and "w = None"
    then have "getWorkspaceGroup (opt_name None) = sel" by simp
    with null nn show False by simp
  qed
  then have m: "map_id ?fs = Inr [item_id w. Some w \<leftarrow> ?fs]" by (rule map_id_total)
  have "[item_id w. Some w \<leftarrow> ?fs] = related_spec sel its"
    using nn by (induction its) (auto simp: related_spec_def opt_name_def split: option.splits)
  with m True show ?thesis by (simp add: related_of_def)
qed


lemma getWorkspaceGroup_truthy:
  "getWorkspaceGroup v \<noteq> JNull \<Longrightarrow> truthy (getWorkspaceGroup v)"
  by (auto simp: getWorkspaceGroup_def Let_def split: if_splits)

lemma on_fulfilled_eq:
  "on_fulfilled f resp t =
     Inr (if cancelled f then t
          else t\<lparr>state := \<lparr>total = resp_total resp,
                 relatedIds = (if truthy (selectedGroup f)
                               then filter truthy (related_spec (selectedGroup f) (items_or_empty resp))
                               else []),
                 loading = False\<rparr>\<rparr>)"
  by (simp add: on_fulfilled_def related_of_spec)

lemma settle_fetches:
  "fetches (settle k oc t) =
     (if k < length (fetches t) \<and> \<not> settled (fetches t ! k)
      then (fetches t)[k := (fetches t ! k)\<lparr>settled := True\<rparr>] else fetches t)"
  by (cases oc) (auto simp: settle_def Let_def on_fulfilled_eq on_rejected_def)

lemma settle_cleanup: "cleanup (settle k oc t) = cleanup t"
  by (cases oc) (auto simp: settle_def Let_def on_fulfilled_eq on_rejected_def)

lemma settle_length: "length (fetches (settle k oc t)) = length (fetches t)"
  by (simp add: settle_fetches)

lemma settle_nth_other:
  "j \<noteq> k \<Longrightarrow> fetches (settle k oc t) ! j = fetches t ! j"
  by (simp add: settle_fetches)

lemma settle_cancelled:
  "j < length (fetches t) \<Longrightarrow> cancelled (fetches (settle k oc t) ! j) = cancelled (fetches t ! j)"
  by (cases "j = k") (simp_all add: settle_fetches)

lemma settle_discard:
  "k \<ge> length (fetches t) \<or> settled (fetches t ! k) \<or> cancelled (fetches t ! k) \<Longrightarrow>
   state (settle k oc t) = state t \<and> console (settle k oc t) = console t"
  by (cases oc) (auto simp: settle_def Let_def on_fulfilled_eq on_rejected_def)

lemma settle_fulfilled_live:
  "k < length (fetches t) \<Longrightarrow> \<not> settled (fetches t ! k) \<Longrightarrow> \<not> cancelled (fetches t ! k) \<Longrightarrow>
   state (settle k (Fulfilled resp) t) =
     \<lparr>total = resp_total resp,
      relatedIds = (if truthy (selectedGroup (fetches t ! k))
                    then filter truthy
                           (related_spec (selectedGroup (fetches t ! k)) (items_or_empty resp))
                    else []),
      loading = False\<rparr>"
  by (simp add: settle_def Let_def on_fulfilled_eq)

lemma settle_rejected_live:
  "k < length (fetches t) \<Longrightarrow> \<not> settled (fetches t ! k) \<Longrightarrow> \<not> cancelled (fetches t ! k) \<Longrightarrow>
   state (settle k (Rejected err) t) = reset_state \<and>
   console (settle k (Rejected err) t) =
     console t @ [(''Error while fetching runs for workflow '' @
                   String_js (query_name (fetches t ! k)), err)]"
  by (simp add: settle_def Let_def on_rejected_def)

lemma run_cleanup_length: "length (fetches (run_cleanup t)) = length (fetches t)"
  by (simp add: run_cleanup_def split: option.splits)

lemma run_cleanup_state: "state (run_cleanup t) = state t"
  by (simp add: run_cleanup_def split: option.splits)

lemma run_cleanup_console: "console (run_cleanup t) = console t"
  by (simp add: run_cleanup_def split: option.splits)

lemma run_cleanup_cancelled:
  "j < length (fetches t) \<Longrightarrow> cancelled (fetches t ! j) \<Longrightarrow>
   cancelled (fetches (run_cleanup t) ! j)"
  by (auto simp: run_cleanup_def nth_list_update split: option.splits)

lemma activate_inactive:
  "\<not> open \<or> \<not> truthy name \<Longrightarrow>
   state (activate open name run t) = reset_state \<and>
   length (fetches (activate open name run t)) = length (fetches t) \<and>
   cleanup (activate open name run t) = None \<and>
   console (activate open name run t) = console t"
  by (auto simp: activate_def run_effect_def run_cleanup_length run_cleanup_console)

lemma activate_active:
  "open \<Longrightarrow> truthy name \<Longrightarrow>
   state (activate open name run t) = (state t)\<lparr>loading := True\<rparr> \<and>
   length (fetches (activate open name run t)) = Suc (length (fetches t)) \<and>
   fetches (activate open name run t) ! length (fetches t) =
     \<lparr>cancelled = False, selectedGroup = getWorkspaceGroup (selectedFullName name run),
      query_name = name, settled = False\<rparr> \<and>
   cleanup (activate open name run t) = Some (length (fetches t)) \<and>
   console (activate open name run t) = console t"
  by (simp add: activate_def run_effect_def run_cleanup_length run_cleanup_console
      run_cleanup_state nth_append)

lemma activate_length_mono:
  "length (fetches t) \<le> length (fetches (activate open name run t))"
  by (simp add: activate_def run_effect_def run_cleanup_length)

lemma activate_cancelled:
  "j < length (fetches t) \<Longrightarrow> cancelled (fetches t ! j) \<Longrightarrow>
   cancelled (fetches (activate open name run t) ! j)"
  by (simp add: activate_def run_effect_def run_cleanup_length run_cleanup_cancelled nth_append)

lemma activate_supersedes:
  "tracker_inv t \<Longrightarrow> j < length (fetches t) \<Longrightarrow>
   cancelled (fetches (activate open name run t) ! j)"
proof -
  assume inv: "tracker_inv t" and j: "j < length (fetches t)"
  have "cancelled (fetches (run_cleanup t) ! j)"
  proof (cases "cleanup t = Some j")
    case True
    then show ?thesis using j by (simp add: run_cleanup_def)
  next
    case False
    with inv j have "cancelled (fetches t ! j)" by (simp add: tracker_inv_def)
    with j show ?thesis by (rule run_cleanup_cancelled)
  qed
  with j show ?thesis
    by (simp add: activate_def run_effect_def run_cleanup_length nth_append)
qed


lemma tracker_inv_init: "tracker_inv init_tracker"
  by (simp add: tracker_inv_def init_tracker_def reset_state_def)

lemma tracker_inv_settle:
  assumes "tracker_inv t"
  shows "tracker_inv (settle k oc t)"
proof -
  have ids: "\<forall>x \<in> set (relatedIds (state (settle k oc t))). truthy x"
  proof (cases "k \<ge> length (fetches t) \<or> settled (fetches t ! k) \<or> cancelled (fetches t ! k)")
    case True
    then have "state (settle k oc t) = state t" by (simp add: settle_discard)
    with assms show ?thesis by (simp add: tracker_inv_def)
  next
    case False
    then show ?thesis
      by (cases oc) (simp_all add: settle_fulfilled_live settle_rejected_live reset_state_def)
  qed
  from assms show ?thesis
    unfolding tracker_inv_def settle_cleanup settle_length
    using ids by (simp add: settle_cancelled)
qed

lemma tracker_inv_activate:
  assumes "tracker_inv t"
  shows "tracker_inv (activate open name run t)"
proof (cases "open \<and> truthy name")
  case True
  then have a: "state (activate open name run t) = (state t)\<lparr>loading := True\<rparr>"
    "length (fetches (activate open name run t)) = Suc (length (fetches t))"
    "cleanup (activate open name run t) = Some (length (fetches t))"
    using activate_active [of "open" name run t] by simp_all
  show ?thesis
    unfolding tracker_inv_def a
    using assms activate_supersedes [OF assms, of _ "open" name run]
    by (auto simp: tracker_inv_def less_Suc_eq)
next
  case False
  then have a: "state (activate open name run t) = reset_state"
    "length (fetches (activate open name run t)) = length (fetches t)"
    "cleanup (activate open name run t) = None"
    using activate_inactive [of "open" name run t] by auto
  show ?thesis
    unfolding tracker_inv_def a
    using activate_supersedes [OF assms, of _ "open" name run]
    by (simp add: reset_state_def)
qed

lemma tracker_inv_step: "tracker_inv t \<Longrightarrow> tracker_inv (step t e)"
  by (cases e) (simp_all add: tracker_inv_settle tracker_inv_activate)

lemma run_events_Cons: "run_events t (e # evs) = run_events (step t e) evs"
  by (simp add: run_events_def)

lemma run_events_Nil: "run_events t [] = t"
  by (simp add: run_events_def)

lemma run_events_append: "run_events t (xs @ ys) = run_events (run_events t xs) ys"
  by (simp add: run_events_def)

lemma tracker_inv_run: "tracker_inv t \<Longrightarrow> tracker_inv (run_events t evs)"
  by (induction evs arbitrary: t) (simp_all add: run_events_Nil run_events_Cons tracker_inv_step)

lemma step_cancelled:
  "j < length (fetches t) \<Longrightarrow> cancelled (fetches t ! j) \<Longrightarrow>
   j < length (fetches (step t e)) \<and> cancelled (fetches (step t e) ! j)"
proof (cases e)
  case (Activate opn name run)
  assume "j < length (fetches t)" and "cancelled (fetches t ! j)"
  then show ?thesis
    using Activate activate_length_mono [of t opn name run]
    by (simp add: activate_cancelled)
next
  case (Settle k oc)
  assume "j < length (fetches t)" and "cancelled (fetches t ! j)"
  then show ?thesis using Settle by (simp add: settle_length settle_cancelled)
qed

lemma run_cancelled:
  "j < length (fetches t) \<Longrightarrow> cancelled (fetches t ! j) \<Longrightarrow>
   j < length (fetches (run_events t evs)) \<and> cancelled (fetches (run_events t evs) ! j)"
proof (induction evs arbitrary: t)
  case Nil
  then show ?case by (simp add: run_events_Nil)
next
  case (Cons e evs)
  from step_cancelled [OF Cons.prems, of e]
  show ?case unfolding run_events_Cons by (intro Cons.IH) simp_all
qed

lemma run_settles_other:
  "list_all (settles_other k) evs \<Longrightarrow>
   fetches (run_events t evs) ! k = fetches t ! k \<and>
   length (fetches (run_events t evs)) = length (fetches t) \<and>
   cleanup (run_events t evs) = cleanup t"
proof (induction evs arbitrary: t)
  case Nil
  then show ?case by (simp add: run_events_Nil)
next
  case (Cons e evs)
  from Cons.prems obtain j oc where e: "e = Settle j oc" and j: "j \<noteq> k"
    by (cases e) auto
  from Cons.prems have "list_all (settles_other k) evs" by simp
  from Cons.IH [OF this, of "step t e"] show ?case
    unfolding run_events_Cons using e j
    by (simp add: settle_nth_other settle_length settle_cleanup)
qed

section \<open>The tracker's claims\<close>

lemma example_selected: "getWorkspaceGroup (selectedFullName (JStr ''w'') (JStr ''1'')) = JStr ''w.1''"
  by code_simp

lemma example_related: "filter truthy (related_spec (JStr ''w.1'')
         [Some \<lparr>item_id = JNum 1, item_name = JStr ''w.1''\<rparr>,
          Some \<lparr>item_id = JNum 2, item_name = JStr ''w.1.1''\<rparr>,
          Some \<lparr>item_id = JNum 3, item_name = JStr ''w.2''\<rparr>]) = [JNum 1, JNum 2]"
  by code_simp

lemma example_issued: "0 < length (fetches (run_events init_tracker [Activate True (JStr ''w'') (JStr ''1'')]))"
  by code_simp

text \<open>
  Claim C4, as amended. When the tracker is activated for a visible, named workflow and
  the response of that activation's query arrives while the activation is still the
  current one (only other queries have settled in between), the resulting state has
  \<open>relatedIds\<close> equal to the truthy identifiers of every returned item whose qualified
  name resolves to the key of the selected run, in the order of the response (none when
  the selected run has no key), \<open>total\<close> equal to the total of the response, and
  \<open>loading\<close> false.
\<close>

theorem response_applied:
  assumes "open" and "truthy name"
    and "list_all (settles_other (length (fetches t))) evs"
  shows "state (settle (length (fetches t)) (Fulfilled resp)
                  (run_events (activate open name run t) evs)) =
         \<lparr>total = resp_total resp,
          relatedIds = filter truthy
            (related_spec (getWorkspaceGroup (selectedFullName name run)) (items_or_empty resp)),
          loading = False\<rparr>"
proof -
  let ?k = "length (fetches t)"
  let ?a = "activate open name run t"
  let ?g = "getWorkspaceGroup (selectedFullName name run)"
  note act = activate_active [OF assms(1,2), of run t]
  note oth = run_settles_other [OF assms(3), of ?a]
  have f: "fetches (run_events ?a evs) ! ?k =
      \<lparr>cancelled = False, selectedGroup = ?g, query_name = name, settled = False\<rparr>"
    using act oth by simp
  have len: "?k < length (fetches (run_events ?a evs))"
    using act oth by simp
  have g: "(if truthy ?g then filter truthy (related_spec ?g its) else []) =
           filter truthy (related_spec ?g its)" for its
    using getWorkspaceGroup_truthy [of "selectedFullName name run"]
    by (auto simp: related_spec_def)
  have live: "\<not> settled (fetches (run_events ?a evs) ! ?k)"
    "\<not> cancelled (fetches (run_events ?a evs) ! ?k)"
    "selectedGroup (fetches (run_events ?a evs) ! ?k) = ?g"
    by (simp_all add: f)
  show ?thesis
    unfolding settle_fulfilled_live [OF len live(1,2)] live(3) g ..
qed

text \<open>
  The amended claim C4 at the example of the specification: items \<open>w.1\<close>, \<open>w.1.1\<close> and
  \<open>w.2\<close> with identifiers 1, 2 and 3, selected run \<open>w.1\<close>: the related identifiers are
  1 and 2.
\<close>

theorem response_applied_witness:
  "state (settle (length (fetches init_tracker))
            (Fulfilled \<lparr>resp_items = Some
               [Some \<lparr>item_id = JNum 1, item_name = JStr ''w.1''\<rparr>,
                Some \<lparr>item_id = JNum 2, item_name = JStr ''w.1.1''\<rparr>,
                Some \<lparr>item_id = JNum 3, item_name = JStr ''w.2''\<rparr>],
              resp_total = JNum 3\<rparr>)
            (run_events (activate True (JStr ''w'') (JStr ''1'') init_tracker) [])) =
   \<lparr>total = JNum 3, relatedIds = [JNum 1, JNum 2], loading = False\<rparr>"
proof -
  have n: "truthy (JStr ''w'')" by simp
  have e: "list_all (settles_other (length (fetches init_tracker))) []" by simp
  show ?thesis
    unfolding response_applied [OF TrueI n e]
    by (simp add: example_selected example_related items_or_empty_def)
qed

text \<open>
  Claim C4 as stated fails: an item whose name resolves to the selected key but whose
  identifier is \<^verbatim>\<open>null\<close> is dropped by \<^verbatim>\<open>.filter(Boolean)\<close>, and a response that arrives
  after a newer activation changes nothing.
\<close>

theorem response_applied_counterexample:
  "relatedIds (state (run_events init_tracker
       [Activate True (JStr ''w'') (JStr ''1''),
        Settle 0 (Fulfilled \<lparr>resp_items = Some
           [Some \<lparr>item_id = JNull, item_name = JStr ''w.1''\<rparr>,
            Some \<lparr>item_id = JNum 2, item_name = JStr ''w.1.1''\<rparr>],
          resp_total = JNum 2\<rparr>)]))
   \<noteq> related_spec (getWorkspaceGroup (selectedFullName (JStr ''w'') (JStr ''1'')))
        [Some \<lparr>item_id = JNull, item_name = JStr ''w.1''\<rparr>,
         Some \<lparr>item_id = JNum 2, item_name = JStr ''w.1.1''\<rparr>]
   \<and> state (run_events init_tracker
       [Activate True (JStr ''w'') (JStr ''1''),
        Activate True (JStr ''v'') (JStr ''2''),
        Settle 0 (Fulfilled \<lparr>resp_items = Some
           [Some \<lparr>item_id = JNum 1, item_name = JStr ''w.1''\<rparr>], resp_total = JNum 1\<rparr>)])
     = \<lparr>total = JNull, relatedIds = [], loading = True\<rparr>"
  by code_simp

text \<open>
  Claim C5. In every run of the tracker, a response (success or failure) to a query
  that was issued before a later activation is discarded: it changes neither the state
  nor the console. Only the query of the most recent activation can change the state.
\<close>

theorem stale_response_discarded:
  assumes "k < length (fetches (run_events init_tracker evs1))"
  shows "state (settle k oc
                  (run_events init_tracker (evs1 @ Activate open name run # evs2))) =
         state (run_events init_tracker (evs1 @ Activate open name run # evs2)) \<and>
         console (settle k oc
                  (run_events init_tracker (evs1 @ Activate open name run # evs2))) =
         console (run_events init_tracker (evs1 @ Activate open name run # evs2))"
proof -
  let ?t1 = "run_events init_tracker evs1"
  let ?a = "activate open name run ?t1"
  let ?t2 = "run_events ?a evs2"
  have r: "run_events init_tracker (evs1 @ Activate open name run # evs2) = ?t2"
    by (simp add: run_events_append run_events_Cons)
  have inv: "tracker_inv ?t1" using tracker_inv_init by (rule tracker_inv_run)
  have c: "cancelled (fetches ?a ! k)" using inv assms by (rule activate_supersedes)
  have l: "k < length (fetches ?a)"
    using assms activate_length_mono [of ?t1 "open" name run] by simp
  from run_cancelled [OF l c, of evs2] have "cancelled (fetches ?t2 ! k)" by simp
  then show ?thesis unfolding r by (simp add: settle_discard)
qed

text \<open>
  Claim C5 at a concrete run: the query for \<open>w.1\<close> answers after the tracker moved on
  to \<open>v.2\<close>.
\<close>

theorem stale_response_discarded_witness:
  "0 < length (fetches (run_events init_tracker [Activate True (JStr ''w'') (JStr ''1'')])) \<and>
   state (settle 0 (Fulfilled \<lparr>resp_items = Some
             [Some \<lparr>item_id = JNum 1, item_name = JStr ''w.1''\<rparr>], resp_total = JNum 1\<rparr>)
            (run_events init_tracker
               ([Activate True (JStr ''w'') (JStr ''1'')] @
                Activate True (JStr ''v'') (JStr ''2'') # []))) =
   state (run_events init_tracker
            ([Activate True (JStr ''w'') (JStr ''1'')] @
             Activate True (JStr ''v'') (JStr ''2'') # []))"
  using example_issued stale_response_discarded [OF example_issued] by simp

text \<open>
  After the result for \<open>w.1\<close> has been applied, a change to \<open>v.2\<close> while the modal stays
  visible leaves that result in the state: line 67 spreads the previous state and only
  sets \<open>loading\<close>.
\<close>

lemma retarget_keeps_previous_result:
  "state (run_events init_tracker
       [Activate True (JStr ''w'') (JStr ''1''),
        Settle 0 (Fulfilled \<lparr>resp_items = Some
           [Some \<lparr>item_id = JNum 1, item_name = JStr ''w.1''\<rparr>,
            Some \<lparr>item_id = JNum 2, item_name = JStr ''w.1.1''\<rparr>], resp_total = JNum 2\<rparr>),
        Activate True (JStr ''v'') (JStr ''2'')])
   = \<lparr>total = JNum 2, relatedIds = [JNum 1, JNum 2], loading = True\<rparr>"
  by code_simp

lemma example_applied:
  "state (run_events init_tracker
       [Activate True (JStr ''w'') (JStr ''1''),
        Settle 0 (Fulfilled \<lparr>resp_items = Some
           [Some \<lparr>item_id = JNum 1, item_name = JStr ''w.1''\<rparr>,
            Some \<lparr>item_id = JNum 2, item_name = JStr ''w.1.1''\<rparr>], resp_total = JNum 2\<rparr>)])
   = \<lparr>total = JNum 2, relatedIds = [JNum 1, JNum 2], loading = False\<rparr>"
  "length (fetches (run_events init_tracker
       [Activate True (JStr ''w'') (JStr ''1''),
        Settle 0 (Fulfilled \<lparr>resp_items = Some
           [Some \<lparr>item_id = JNum 1, item_name = JStr ''w.1''\<rparr>,
            Some \<lparr>item_id = JNum 2, item_name = JStr ''w.1.1''\<rparr>], resp_total = JNum 2\<rparr>)]))
   = 1"
  by code_simp+

text \<open>
  Claim C6, as amended. When the interaction is not visible or the name is absent, an
  activation resets the state to \<^verbatim>\<open>{total: null, relatedIds: [], loading: false}\<close> at
  once and issues no query. When it is visible and the name is present, an activation
  issues exactly one query, for that name and the group of the selected run, and sets
  \<open>loading\<close> to true.
\<close>

theorem activation_state:
  "(\<not> open \<or> \<not> truthy name \<longrightarrow>
      state (activate open name run t) = reset_state \<and>
      length (fetches (activate open name run t)) = length (fetches t)) \<and>
   (open \<and> truthy name \<longrightarrow>
      loading (state (activate open name run t)) \<and>
      length (fetches (activate open name run t)) = Suc (length (fetches t)) \<and>
      fetches (activate open name run t) ! length (fetches t) =
        \<lparr>cancelled = False, selectedGroup = getWorkspaceGroup (selectedFullName name run),
         query_name = name, settled = False\<rparr>)"
proof -
  have "loading (state (activate open name run t))" if "open" and "truthy name"
    using activate_active [OF that, of run t] by simp
  then show ?thesis
    using activate_inactive [of "open" name run t] activate_active [of "open" name run t]
    by blast
qed

text \<open>
  The amended claim C6 on a tracker that holds the result for \<open>w.1\<close> (total 2, related
  identifiers 1 and 2, one query issued): closing it clears that result and issues no
  query; retargeting it to \<open>v.2\<close> while visible sets \<open>loading\<close> and issues a second query.
\<close>

theorem activation_state_witness:
  "state (run_events init_tracker
       [Activate True (JStr ''w'') (JStr ''1''),
        Settle 0 (Fulfilled \<lparr>resp_items = Some
           [Some \<lparr>item_id = JNum 1, item_name = JStr ''w.1''\<rparr>,
            Some \<lparr>item_id = JNum 2, item_name = JStr ''w.1.1''\<rparr>], resp_total = JNum 2\<rparr>)])
     = \<lparr>total = JNum 2, relatedIds = [JNum 1, JNum 2], loading = False\<rparr> \<and>
   state (activate False (JStr ''v'') (JStr ''2'') (run_events init_tracker
       [Activate True (JStr ''w'') (JStr ''1''),
        Settle 0 (Fulfilled \<lparr>resp_items = Some
           [Some \<lparr>item_id = JNum 1, item_name = JStr ''w.1''\<rparr>,
            Some \<lparr>item_id = JNum 2, item_name = JStr ''w.1.1''\<rparr>], resp_total = JNum 2\<rparr>)]))
     = \<lparr>total = JNull, relatedIds = [], loading = False\<rparr> \<and>
   length (fetches (activate False (JStr ''v'') (JStr ''2'') (run_events init_tracker
       [Activate True (JStr ''w'') (JStr ''1''),
        Settle 0 (Fulfilled \<lparr>resp_items = Some
           [Some \<lparr>item_id = JNum 1, item_name = JStr ''w.1''\<rparr>,
            Some \<lparr>item_id = JNum 2, item_name = JStr ''w.1.1''\<rparr>], resp_total = JNum 2\<rparr>)])))
     = 1 \<and>
   loading (state (activate True (JStr ''v'') (JStr ''2'') (run_events init_tracker
       [Activate True (JStr ''w'') (JStr ''1''),
        Settle 0 (Fulfilled \<lparr>resp_items = Some
           [Some \<lparr>item_id = JNum 1, item_name = JStr ''w.1''\<rparr>,
            Some \<lparr>item_id = JNum 2, item_name = JStr ''w.1.1''\<rparr>], resp_total = JNum 2\<rparr>)]))) \<and>
   length (fetches (activate True (JStr ''v'') (JStr ''2'') (run_events init_tracker
       [Activate True (JStr ''w'') (JStr ''1''),
        Settle 0 (Fulfilled \<lparr>resp_items = Some
           [Some \<lparr>item_id = JNum 1, item_name = JStr ''w.1''\<rparr>,
            Some \<lparr>item_id = JNum 2, item_name = JStr ''w.1.1''\<rparr>], resp_total = JNum 2\<rparr>)])))
     = 2"
  using activation_state [of False "JStr ''v''" "JStr ''2''" "run_events init_tracker
       [Activate True (JStr ''w'') (JStr ''1''),
        Settle 0 (Fulfilled \<lparr>resp_items = Some
           [Some \<lparr>item_id = JNum 1, item_name = JStr ''w.1''\<rparr>,
            Some \<lparr>item_id = JNum 2, item_name = JStr ''w.1.1''\<rparr>], resp_total = JNum 2\<rparr>)]"]
    activation_state [of True "JStr ''v''" "JStr ''2''" "run_events init_tracker
       [Activate True (JStr ''w'') (JStr ''1''),
        Settle 0 (Fulfilled \<lparr>resp_items = Some
           [Some \<lparr>item_id = JNum 1, item_name = JStr ''w.1''\<rparr>,
            Some \<lparr>item_id = JNum 2, item_name = JStr ''w.1.1''\<rparr>], resp_total = JNum 2\<rparr>)]"]
    example_applied
  by (simp add: reset_state_def)

text \<open>
  Claim C6 as stated fails: a change to the visible, named workflow \<open>w.1\<close> starts a query
  and leaves \<open>loading\<close> true, where the claim has the state reset with \<open>loading\<close> false.
\<close>

theorem activation_state_counterexample:
  "state (run_events init_tracker [Activate True (JStr ''w'') (JStr ''1'')])
     = \<lparr>total = JNull, relatedIds = [], loading = True\<rparr>
   \<and> \<lparr>total = JNull, relatedIds = [], loading = True\<rparr> \<noteq> reset_state"
  by code_simp

text \<open>
  Claim C8, as amended. When the query of an activation for a visible, named workflow
  fails while that activation is still the current one, the error is logged and the
  state is reset to \<^verbatim>\<open>{total: null, relatedIds: [], loading: false}\<close>.
\<close>

theorem failure_resets:
  assumes "open" and "truthy name"
    and "list_all (settles_other (length (fetches t))) evs"
  shows "state (settle (length (fetches t)) (Rejected err)
                  (run_events (activate open name run t) evs)) = reset_state \<and>
         console (settle (length (fetches t)) (Rejected err)
                  (run_events (activate open name run t) evs)) =
         console (run_events (activate open name run t) evs) @
           [(''Error while fetching runs for workflow '' @ String_js name, err)]"
proof -
  let ?k = "length (fetches t)"
  let ?a = "activate open name run t"
  note act = activate_active [OF assms(1,2), of run t]
  note oth = run_settles_other [OF assms(3), of ?a]
  have f: "fetches (run_events ?a evs) ! ?k =
      \<lparr>cancelled = False, selectedGroup = getWorkspaceGroup (selectedFullName name run),
       query_name = name, settled = False\<rparr>"
    using act oth by simp
  have len: "?k < length (fetches (run_events ?a evs))"
    using act oth by simp
  have live: "\<not> settled (fetches (run_events ?a evs) ! ?k)"
    "\<not> cancelled (fetches (run_events ?a evs) ! ?k)"
    "query_name (fetches (run_events ?a evs) ! ?k) = name"
    by (simp_all add: f)
  show ?thesis
    using settle_rejected_live [OF len live(1,2), of err] live(3) by simp
qed

text \<open>
  The amended claim C8 at a concrete failure.
\<close>

theorem failure_resets_witness:
  "state (settle (length (fetches init_tracker)) (Rejected (Reason (JStr ''timeout'')))
            (run_events (activate True (JStr ''w'') (JStr ''1'') init_tracker) [])) =
   reset_state"
proof -
  have n: "truthy (JStr ''w'')" by simp
  have e: "list_all (settles_other (length (fetches init_tracker))) []" by simp
  show ?thesis
    using failure_resets [OF TrueI n e] by simp
qed

text \<open>
  Claim C8 as stated fails: the failure of a query whose activation has been
  superseded resets nothing.
\<close>

theorem failure_resets_counterexample:
  "state (run_events init_tracker
       [Activate True (JStr ''w'') (JStr ''1''),
        Activate True (JStr ''v'') (JStr ''2''),
        Settle 1 (Fulfilled \<lparr>resp_items = Some
           [Some \<lparr>item_id = JNum 4, item_name = JStr ''v.2''\<rparr>,
            Some \<lparr>item_id = JNum 5, item_name = JStr ''v.2.1''\<rparr>], resp_total = JNum 2\<rparr>),
        Settle 0 (Rejected (Reason (JStr ''timeout'')))])
   = \<lparr>total = JNum 2, relatedIds = [JNum 4, JNum 5], loading = False\<rparr>
   \<and> \<lparr>total = JNum 2, relatedIds = [JNum 4, JNum 5], loading = False\<rparr> \<noteq> reset_state"
  by code_simp

section \<open>Properties of the deletion modal\<close>

lemma then_do_close:
  "then_do (await_dispatch ok i opts) onCloseModal =
     (Dispatch i opts # (if ok i opts then [CloseModal] else []), ok i opts)"
  by (simp add: then_do_def await_dispatch_def onCloseModal_def)

lemma then_do_all_close:
  "then_do (await_dispatch ok i p) (then_do (await_all ok ids q) onCloseModal) =
     (Dispatch i p #
        (if ok i p
         then map (\<lambda>j. Dispatch j q) ids @
              (if list_all (\<lambda>j. ok j q) ids then [CloseModal] else [])
         else []),
      ok i p \<and> list_all (\<lambda>j. ok j q) ids)"
  by (simp add: then_do_def await_dispatch_def await_all_def onCloseModal_def)

lemma example_chain:
  "truthy (JNum 5)"
  "hasRelatedRuns \<lparr>wf_id = JNum 5, wf_name = JStr ''x'', wf_run = JStr ''7.1'', allRuns = False,
      confirmRelatedDeletion = True, allRunsTotal = JNum 4,
      relatedRunIds = [JNum 5, JNum 6, JNum 7]\<rparr>"
  by (simp_all add: hasRelatedRuns_def)

lemma onDelete_targets:
  assumes "Dispatch i opts \<in> set (fst (onDelete ok m))"
  shows "truthy (wf_id m) \<and> (i = wf_id m \<or> i \<in> set (relatedRunIds m))"
  using assms
  by (auto simp: onDelete_def then_do_close then_do_all_close return_js_def
      split: if_splits)

text \<open>
  Claim C1, as amended. With no usable (truthy) target identifier \<^verbatim>\<open>onDelete\<close> does
  nothing. Otherwise: with \<open>allRuns\<close> it dispatches exactly
  \<^verbatim>\<open>deleteWorkflow(id, {allRuns: true})\<close> and then closes; else, with related runs and
  the confirmation, it dispatches \<^verbatim>\<open>deleteWorkflow(id, {allRuns: false, deleteWorkspace: true})\<close>
  and, once that is fulfilled, one
  \<^verbatim>\<open>deleteWorkflow(otherId, {allRuns: false, deleteWorkspace: false})\<close> for every related
  identifier other than \<open>id\<close>, in their order, closing once all of them are fulfilled;
  else, with related runs and no confirmation, it does nothing; else it dispatches
  exactly \<^verbatim>\<open>deleteWorkflow(id, {allRuns: false, deleteWorkspace: true})\<close> and then closes.
  The modal is closed only after the command before it was fulfilled.
\<close>

theorem onDelete_sequence:
  "(\<not> truthy (wf_id m) \<longrightarrow> onDelete ok m = ([], True)) \<and>
   (truthy (wf_id m) \<and> allRuns m \<longrightarrow>
      fst (onDelete ok m) =
        Dispatch (wf_id m) \<lparr>opt_allRuns = True, opt_deleteWorkspace = None\<rparr> #
        (if ok (wf_id m) \<lparr>opt_allRuns = True, opt_deleteWorkspace = None\<rparr>
         then [CloseModal] else [])) \<and>
   (truthy (wf_id m) \<and> \<not> allRuns m \<and> hasRelatedRuns m \<and> confirmRelatedDeletion m \<longrightarrow>
      fst (onDelete ok m) =
        Dispatch (wf_id m) \<lparr>opt_allRuns = False, opt_deleteWorkspace = Some True\<rparr> #
        (if ok (wf_id m) \<lparr>opt_allRuns = False, opt_deleteWorkspace = Some True\<rparr>
         then map (\<lambda>otherId. Dispatch otherId
                     \<lparr>opt_allRuns = False, opt_deleteWorkspace = Some False\<rparr>)
                (filter (\<lambda>otherId. otherId \<noteq> wf_id m) (relatedRunIds m)) @
              (if list_all (\<lambda>otherId. ok otherId
                              \<lparr>opt_allRuns = False, opt_deleteWorkspace = Some False\<rparr>)
                    (filter (\<lambda>otherId. otherId \<noteq> wf_id m) (relatedRunIds m))
               then [CloseModal] else [])
         else [])) \<and>
   (truthy (wf_id m) \<and> \<not> allRuns m \<and> hasRelatedRuns m \<and> \<not> confirmRelatedDeletion m \<longrightarrow>
      onDelete ok m = ([], True)) \<and>
   (truthy (wf_id m) \<and> \<not> allRuns m \<and> \<not> hasRelatedRuns m \<longrightarrow>
      fst (onDelete ok m) =
        Dispatch (wf_id m) \<lparr>opt_allRuns = False, opt_deleteWorkspace = Some True\<rparr> #
        (if ok (wf_id m) \<lparr>opt_allRuns = False, opt_deleteWorkspace = Some True\<rparr>
         then [CloseModal] else []))"
  by (simp add: onDelete_def then_do_close then_do_all_close return_js_def)

text \<open>
  The amended claim C1 at scenario B of the specification: target 5 among the related
  identifiers 5, 6 and 7, confirmed, every command fulfilled.
\<close>

theorem onDelete_sequence_witness:
  "fst (onDelete all_fulfil
     \<lparr>wf_id = JNum 5, wf_name = JStr ''x'', wf_run = JStr ''7.1'', allRuns = False,
      confirmRelatedDeletion = True, allRunsTotal = JNum 4,
      relatedRunIds = [JNum 5, JNum 6, JNum 7]\<rparr>) =
   [Dispatch (JNum 5) \<lparr>opt_allRuns = False, opt_deleteWorkspace = Some True\<rparr>,
    Dispatch (JNum 6) \<lparr>opt_allRuns = False, opt_deleteWorkspace = Some False\<rparr>,
    Dispatch (JNum 7) \<lparr>opt_allRuns = False, opt_deleteWorkspace = Some False\<rparr>,
    CloseModal]"
  using onDelete_sequence [of "\<lparr>wf_id = JNum 5, wf_name = JStr ''x'', wf_run = JStr ''7.1'',
      allRuns = False, confirmRelatedDeletion = True, allRunsTotal = JNum 4,
      relatedRunIds = [JNum 5, JNum 6, JNum 7]\<rparr>" all_fulfil] example_chain
  by (simp add: all_fulfil_def)

text \<open>
  Claim C1 as stated fails: with related runs, no confirmation and \<open>allRuns\<close> off, the
  claim's last case promises one command and a close, and \<^verbatim>\<open>onDelete\<close> does nothing.
\<close>

theorem onDelete_sequence_counterexample:
  "onDelete all_fulfil
     \<lparr>wf_id = JNum 5, wf_name = JStr ''x'', wf_run = JStr ''7.1'', allRuns = False,
      confirmRelatedDeletion = False, allRunsTotal = JNum 4,
      relatedRunIds = [JNum 5, JNum 6, JNum 7]\<rparr> = ([], True)
   \<and> fst (onDelete all_fulfil
     \<lparr>wf_id = JNum 5, wf_name = JStr ''x'', wf_run = JStr ''7.1'', allRuns = False,
      confirmRelatedDeletion = False, allRunsTotal = JNum 4,
      relatedRunIds = [JNum 5, JNum 6, JNum 7]\<rparr>) \<noteq>
     [Dispatch (JNum 5) \<lparr>opt_allRuns = False, opt_deleteWorkspace = Some True\<rparr>, CloseModal]"
  by (simp add: onDelete_def hasRelatedRuns_def return_js_def)

text \<open>
  Claim C2. The delete button is enabled exactly when there are no related runs, or
  \<open>allRuns\<close> is set, or the deletion of related runs is confirmed; and with related runs,
  \<open>allRuns\<close> off and no confirmation, neither a call of \<^verbatim>\<open>onDelete\<close> nor a click on the
  button has any effect: no command, no close, and the promise is fulfilled.
\<close>

theorem delete_enabled_iff:
  "(\<not> delete_disabled m) =
     (\<not> hasRelatedRuns m \<or> allRuns m \<or> confirmRelatedDeletion m) \<and>
   (hasRelatedRuns m \<and> \<not> allRuns m \<and> \<not> confirmRelatedDeletion m \<longrightarrow>
      onDelete ok m = ([], True) \<and> click_delete ok m = ([], True))"
  by (auto simp: delete_disabled_def onDelete_def click_delete_def return_js_def)

text \<open>
  Claim C2 at a modal with three related runs and no confirmation.
\<close>

theorem delete_enabled_iff_witness:
  "\<not> (\<not> delete_disabled
     \<lparr>wf_id = JNum 5, wf_name = JStr ''x'', wf_run = JStr ''7.1'', allRuns = False,
      confirmRelatedDeletion = False, allRunsTotal = JNum 4,
      relatedRunIds = [JNum 5, JNum 6, JNum 7]\<rparr>) \<and>
   click_delete all_fulfil
     \<lparr>wf_id = JNum 5, wf_name = JStr ''x'', wf_run = JStr ''7.1'', allRuns = False,
      confirmRelatedDeletion = False, allRunsTotal = JNum 4,
      relatedRunIds = [JNum 5, JNum 6, JNum 7]\<rparr> = ([], True)"
  using delete_enabled_iff [of "\<lparr>wf_id = JNum 5, wf_name = JStr ''x'', wf_run = JStr ''7.1'',
      allRuns = False, confirmRelatedDeletion = False, allRunsTotal = JNum 4,
      relatedRunIds = [JNum 5, JNum 6, JNum 7]\<rparr>" all_fulfil]
  by (simp add: hasRelatedRuns_def)

text \<open>
  Claim C7, as amended. The label is a function of the modal's values with these cases
  in order: no name gives \<open>Delete\<close>; \<open>allRuns\<close> gives \<open>Delete N runs of "name"\<close> where \<open>N\<close>
  is the total, or \<open>all\<close> when the total is null or undefined; related runs with the
  confirmation give \<open>Delete K runs in restart chain of "L"\<close> where \<open>K\<close> is the number of
  related runs and \<open>L\<close> is \<open>name#baseRun\<close> when \<open>baseRun\<close>, the first dot-separated
  component of the run, is not empty, and \<open>name\<close> alone when it is empty; a designated
  non-empty run gives \<open>Delete workflow "name#run"\<close>; otherwise
  \<open>Delete workflow "name"\<close>. Run \<open>7.1\<close> has \<open>baseRun\<close> 7.
\<close>

theorem deleteButtonLabel_cases:
  "(\<not> truthy (wf_name m) \<longrightarrow> deleteButtonLabel m = ''Delete'') \<and>
   (truthy (wf_name m) \<and> allRuns m \<longrightarrow>
      deleteButtonLabel m =
        ''Delete '' @
        (if allRunsTotal m = JNull \<or> allRunsTotal m = JUndefined then ''all''
         else String_js (allRunsTotal m)) @
        '' runs of '' @ quoted (String_js (wf_name m))) \<and>
   (truthy (wf_name m) \<and> \<not> allRuns m \<and> hasRelatedRuns m \<and> confirmRelatedDeletion m \<longrightarrow>
      deleteButtonLabel m =
        ''Delete '' @ digits_of (length (relatedRunIds m)) @ '' runs in restart chain of '' @
        quoted (if baseRun m = [] then String_js (wf_name m)
                else String_js (wf_name m) @ ''#'' @ baseRun m)) \<and>
   (truthy (wf_name m) \<and> \<not> allRuns m \<and> \<not> (hasRelatedRuns m \<and> confirmRelatedDeletion m) \<and>
    wf_run m \<noteq> JUndefined \<and> wf_run m \<noteq> JNull \<and> String_js (wf_run m) \<noteq> [] \<longrightarrow>
      deleteButtonLabel m =
        ''Delete workflow '' @ quoted (String_js (wf_name m) @ ''#'' @ String_js (wf_run m))) \<and>
   (truthy (wf_name m) \<and> \<not> allRuns m \<and> \<not> (hasRelatedRuns m \<and> confirmRelatedDeletion m) \<and>
    (wf_run m = JUndefined \<or> wf_run m = JNull \<or> String_js (wf_run m) = []) \<longrightarrow>
      deleteButtonLabel m = ''Delete workflow '' @ quoted (String_js (wf_name m))) \<and>
   baseRun (m\<lparr>wf_run := JStr ''7.1''\<rparr>) = ''7''"
proof -
  have c: "hasRelatedRuns m \<Longrightarrow>
      String_js (or_js (relatedCount m) (JStr ''all'')) = digits_of (length (relatedRunIds m))"
    by (auto simp: hasRelatedRuns_def or_js_def relatedCount_def)
  have t: "String_js (coalesce (allRunsTotal m) (JStr ''all'')) =
      (if allRunsTotal m = JNull \<or> allRunsTotal m = JUndefined then ''all''
       else String_js (allRunsTotal m))"
    by (auto simp: coalesce_def nullish_def)
  have r: "String_js (runLabel m) =
      (if baseRun m = [] then String_js (wf_name m)
       else String_js (wf_name m) @ ''#'' @ baseRun m)"
    by (simp add: runLabel_def)
  have b: "baseRun (m\<lparr>wf_run := JStr ''7.1''\<rparr>) = ''7''"
    by (simp add: baseRun_def coalesce_def nullish_def)
  show ?thesis
    unfolding deleteButtonLabel_def t r b using c by auto
qed

text \<open>
  The amended claim C7 at scenario B of the specification.
\<close>

theorem deleteButtonLabel_cases_witness:
  "deleteButtonLabel
     \<lparr>wf_id = JNum 5, wf_name = JStr ''x'', wf_run = JStr ''7.1'', allRuns = False,
      confirmRelatedDeletion = True, allRunsTotal = JNum 4,
      relatedRunIds = [JNum 5, JNum 6, JNum 7]\<rparr> =
   ''Delete 3 runs in restart chain of '' @ quoted ''x#7''"
proof -
  have d: "digits_of (length [JNum 5, JNum 6, JNum 7]) = ''3''" by code_simp
  have b: "baseRun \<lparr>wf_id = JNum 5, wf_name = JStr ''x'', wf_run = JStr ''7.1'', allRuns = False,
      confirmRelatedDeletion = True, allRunsTotal = JNum 4,
      relatedRunIds = [JNum 5, JNum 6, JNum 7]\<rparr> = ''7''" by code_simp
  show ?thesis
    using deleteButtonLabel_cases [of "\<lparr>wf_id = JNum 5, wf_name = JStr ''x'',
      wf_run = JStr ''7.1'', allRuns = False, confirmRelatedDeletion = True,
      allRunsTotal = JNum 4, relatedRunIds = [JNum 5, JNum 6, JNum 7]\<rparr>"] d b
    by (simp add: hasRelatedRuns_def)
qed

text \<open>
  Claim C7 as stated fails: with related runs confirmed and no run designated,
  \<open>baseRun\<close> is empty and the label names the chain \<open>"w.1"\<close>, not \<open>"w.1#"\<close>.
\<close>

theorem deleteButtonLabel_cases_counterexample:
  "deleteButtonLabel
     \<lparr>wf_id = JNum 5, wf_name = JStr ''w.1'', wf_run = JUndefined, allRuns = False,
      confirmRelatedDeletion = True, allRunsTotal = JNum 2,
      relatedRunIds = [JNum 5, JNum 6]\<rparr> =
   ''Delete 2 runs in restart chain of '' @ quoted ''w.1''
   \<and> deleteButtonLabel
     \<lparr>wf_id = JNum 5, wf_name = JStr ''w.1'', wf_run = JUndefined, allRuns = False,
      confirmRelatedDeletion = True, allRunsTotal = JNum 2,
      relatedRunIds = [JNum 5, JNum 6]\<rparr> \<noteq>
   ''Delete 2 runs in restart chain of '' @
   quoted (''w.1'' @ ''#'' @
     baseRun \<lparr>wf_id = JNum 5, wf_name = JStr ''w.1'', wf_run = JUndefined, allRuns = False,
       confirmRelatedDeletion = True, allRunsTotal = JNum 2,
       relatedRunIds = [JNum 5, JNum 6]\<rparr>)"
  by code_simp

text \<open>
  Claim C10. In every run of the tracker, every related identifier in the state is
  truthy, so none is null or undefined; the computation of the related identifiers
  never throws and returns truthy identifiers only; and every delete command that
  \<^verbatim>\<open>onDelete\<close> dispatches for a modal fed by the tracker carries a truthy identifier.
\<close>

theorem relatedIds_truthy:
  "(\<forall>x \<in> set (relatedIds (state (run_events init_tracker evs))).
      truthy x \<and> x \<noteq> JNull \<and> x \<noteq> JUndefined) \<and>
   (\<exists>ids. related_of sel its = Inr ids \<and> (\<forall>x \<in> set ids. truthy x)) \<and>
   (\<forall>i opts.
      Dispatch i opts \<in> set (fst (onDelete ok
         (modal_of (run_events init_tracker evs) wid name run a c))) \<longrightarrow> truthy i)"
proof -
  have "tracker_inv (run_events init_tracker evs)"
    using tracker_inv_init by (rule tracker_inv_run)
  then have ids: "\<forall>x \<in> set (relatedIds (state (run_events init_tracker evs))). truthy x"
    by (simp add: tracker_inv_def)
  have one: "\<forall>x \<in> set (relatedIds (state (run_events init_tracker evs))).
      truthy x \<and> x \<noteq> JNull \<and> x \<noteq> JUndefined"
    using ids by auto
  have two: "\<exists>ids. related_of sel its = Inr ids \<and> (\<forall>x \<in> set ids. truthy x)"
    by (simp add: related_of_spec)
  have three: "truthy i"
    if "Dispatch i opts \<in> set (fst (onDelete ok
         (modal_of (run_events init_tracker evs) wid name run a c)))" for i opts
    using onDelete_targets [OF that] ids by (auto simp: modal_of_def)
  from one two three show ?thesis by blast
qed

text \<open>
  Claim C10 at a response whose first item has a null identifier: the item is left
  out although its name resolves to the selected key.
\<close>

theorem relatedIds_truthy_witness:
  "relatedIds (state (run_events init_tracker
       [Activate True (JStr ''w'') (JStr ''1''),
        Settle 0 (Fulfilled \<lparr>resp_items = Some
           [Some \<lparr>item_id = JNull, item_name = JStr ''w.1''\<rparr>,
            Some \<lparr>item_id = JNum 2, item_name = JStr ''w.1.1''\<rparr>],
          resp_total = JNum 2\<rparr>)])) = [JNum 2] \<and>
   truthy (JNum 2)"
proof -
  have e: "relatedIds (state (run_events init_tracker
       [Activate True (JStr ''w'') (JStr ''1''),
        Settle 0 (Fulfilled \<lparr>resp_items = Some
           [Some \<lparr>item_id = JNull, item_name = JStr ''w.1''\<rparr>,
            Some \<lparr>item_id = JNum 2, item_name = JStr ''w.1.1''\<rparr>],
          resp_total = JNum 2\<rparr>)])) = [JNum 2]"
    by code_simp
  from relatedIds_truthy [of "[Activate True (JStr ''w'') (JStr ''1''),
        Settle 0 (Fulfilled \<lparr>resp_items = Some
           [Some \<lparr>item_id = JNull, item_name = JStr ''w.1''\<rparr>,
            Some \<lparr>item_id = JNum 2, item_name = JStr ''w.1.1''\<rparr>],
          resp_total = JNum 2\<rparr>)]"]
  have "\<forall>x \<in> set [JNum 2]. truthy x \<and> x \<noteq> JNull \<and> x \<noteq> JUndefined"
    unfolding e by blast
  then have "truthy (JNum 2)" by simp
  with e show ?thesis by simp
qed

end
